theory Spec2Isabelle
  imports
    Main
    "HOL-Library.AList"
    "HOL-Library.Multiset"
    "HOL-Library.Product_Lexorder"
begin

section \<open>The treasure hunt bot (treasure\_hunt\_bot.py)\<close>

text \<open>
  A shallow embedding of \<^verbatim>\<open>src/treasure_hunt_bot.py\<close>: the class \<^verbatim>\<open>TreasureHuntBot\<close>
  (catalog, sessions, progression, leaderboard), the handlers that drive it
  (\<^verbatim>\<open>handle_message\<close>, \<^verbatim>\<open>hint_command\<close>, \<^verbatim>\<open>button_callback\<close>, \<^verbatim>\<open>send_riddle\<close>) and the
  start-up logic of \<^verbatim>\<open>main\<close>.

  Conventions.
  \<^item> Python strings are modelled as \<open>string\<close> (lists of 8-bit characters), and texts are
    taken to be ASCII: \<^verbatim>\<open>strip\<close> and \<^verbatim>\<open>lower\<close> are modelled on ASCII white space and ASCII
    capitals, and leave every other byte alone (Python's also treat the spaces and letters
    beyond ASCII).
  \<^item> \<^verbatim>\<open>datetime.now()\<close> is an input of the operation that calls it (an \<open>int\<close>, in
    microseconds); a \<^verbatim>\<open>timedelta\<close> is the \<open>int\<close> difference of two such values.
  \<^item> A Python \<^verbatim>\<open>dict\<close> keeps its keys in insertion order, and \<^verbatim>\<open>get_leaderboard\<close> iterates
    over \<^verbatim>\<open>game_data.items()\<close>, so \<^verbatim>\<open>game_data\<close> is an association list: \<open>map_of\<close> is the
    lookup, \<open>AList.update\<close> the assignment \<^verbatim>\<open>d[k] = v\<close> (in place for a key that is present,
    appended at the end otherwise).
  \<^item> An exception is a value \<open>Inl e\<close> of a sum type.
  \<^item> The counters \<^verbatim>\<open>current_riddle\<close> and \<^verbatim>\<open>hints_used\<close> are only ever written as \<open>0\<close> and
    \<open>+= 1\<close>; they are natural numbers.
\<close>

datatype py_error = KeyError | IndexError | UnboundLocalError | OSError

subsection \<open>Python primitives\<close>

text \<open>\<^verbatim>\<open>xs[i]\<close> for a non-negative index: \<^verbatim>\<open>IndexError\<close> out of range.\<close>

definition getitem :: "'a list \<Rightarrow> nat \<Rightarrow> py_error + 'a" where
  "getitem xs i = (if i < length xs then Inr (xs ! i) else Inl IndexError)"

text \<open>\<^verbatim>\<open>str.isspace\<close> on the ASCII range: tab, line feed, vertical tab, form feed,
  carriage return, the four separators \<open>0x1c\<close> to \<open>0x1f\<close>, and the space.\<close>

definition isspace :: "char \<Rightarrow> bool" where
  "isspace c = (let n = (of_char c :: nat) in (9 \<le> n \<and> n \<le> 13) \<or> (28 \<le> n \<and> n \<le> 32))"

definition lower_char :: "char \<Rightarrow> char" where
  "lower_char c = (let n = (of_char c :: nat) in if 65 \<le> n \<and> n \<le> 90 then char_of (n + 32) else c)"

definition strip :: "string \<Rightarrow> string" where
  "strip s = rev (dropWhile isspace (rev (dropWhile isspace s)))"

definition lower :: "string \<Rightarrow> string" where
  "lower s = map lower_char s"

definition startswith :: "string \<Rightarrow> string \<Rightarrow> bool" where
  "startswith s p = (take (length p) s = p)"

subsection \<open>The riddle catalog\<close>

text \<open>A riddle is a dictionary with the keys \<^verbatim>\<open>id\<close>, \<^verbatim>\<open>riddle\<close>, \<^verbatim>\<open>hint\<close>, \<^verbatim>\<open>location\<close> and
  \<^verbatim>\<open>qr_code\<close>, read with \<^verbatim>\<open>r["..."]\<close>, and the keys \<^verbatim>\<open>answer\<close>, \<^verbatim>\<open>image_path\<close> and \<^verbatim>\<open>map_path\<close>,
  read with \<^verbatim>\<open>r.get("...")\<close>: these three may be absent.\<close>

record riddle =
  rid :: int
  riddle_text :: string
  answer :: "string option"
  hint :: string
  image_path :: "string option"
  map_path :: "string option"
  location :: string
  qr_code :: string

text \<open>The catalog that \<^verbatim>\<open>load_riddles\<close> returns. The emoji that open the riddle texts are
  written as their UTF-8 bytes.\<close>

definition load_riddles :: "riddle list" where
  "load_riddles =
    [ \<lparr> rid = 0,
        riddle_text = [CHR 0xF0, CHR 0x9F, CHR 0xA7, CHR 0xA0] @
          '' Warm-up! What building has the most stories?'',
        answer = Some ''library'',
        hint = ''Think about books!'',
        image_path = Some ''img_riddles/riddle_0.jpg'',
        map_path = Some ''img_maps/map_1.jpg'',
        location = ''start'',
        qr_code = ''N/A'' \<rparr>,
      \<lparr> rid = 1,
        riddle_text = [CHR 0xF0, CHR 0x9F, CHR 0x8C, CHR 0xB3] @ '' Under the shade...'',
        answer = Some ''park'',
        hint = ''...'',
        image_path = Some ''...'',
        map_path = Some ''img_maps/map_2.jpg'',
        location = ''park'',
        qr_code = ''TREASURE_HUNT_LOC_1_PARK'' \<rparr>,
      \<lparr> rid = 3,
        riddle_text = [CHR 0xE2, CHR 0x98, CHR 0x95] @
          '' Where caffeine flows and friends meet, aromatic beans make life complete. '' @
          ''Find the place where morning starts sweet.'',
        answer = None,
        hint = ''The smell of fresh coffee guides the way!'',
        image_path = Some ''img_riddles/riddle_3.jpg'',
        map_path = None,
        location = ''cafe'',
        qr_code = ''TREASURE_HUNT_LOC_3_CAFE'' \<rparr>,
      \<lparr> rid = 4,
        riddle_text = [CHR 0xF0, CHR 0x9F, CHR 0x8F, CHR 0x86] @
          '' The final treasure lies within, where this hunt began. Show your courage, you'' @
          [CHR 0x27] @ ''ve nearly won!'',
        answer = None,
        hint = ''Return to where your journey began!'',
        image_path = Some ''img_riddles/riddle_4.jpg'',
        map_path = None,
        location = ''start'',
        qr_code = ''TREASURE_HUNT_LOC_4_START'' \<rparr> ]"

subsection \<open>Sessions and the bot\<close>

text \<open>A session dictionary. The key \<^verbatim>\<open>end_time\<close> is absent until \<^verbatim>\<open>advance_riddle\<close> writes it.\<close>

record session =
  team_name :: string
  current_riddle :: nat
  start_time :: int
  completed_riddles :: "nat list"
  hints_used :: nat
  status :: string
  end_time :: "int option"

text \<open>The attributes of a \<^verbatim>\<open>TreasureHuntBot\<close>. A QR object stands for the data it encodes.\<close>

record bot =
  token :: string
  game_data :: "(int \<times> session) list"
  riddles :: "riddle list"
  qr_codes :: "(string \<times> string) list"

definition generate_qr_codes :: "riddle list \<Rightarrow> (string \<times> string) list" where
  "generate_qr_codes rs = foldl (\<lambda>d r. AList.update (qr_code r) (qr_code r) d) [] rs"

text \<open>\<^verbatim>\<open>__init__\<close>, with the list \<^verbatim>\<open>load_riddles()\<close> returns as the parameter \<open>rs\<close>: the source
  invites editing that list (``Customize this for your event''), and \<^verbatim>\<open>load_riddles\<close> itself
  returns its literal and checks nothing.\<close>

definition init_bot :: "riddle list \<Rightarrow> string \<Rightarrow> bot" where
  "init_bot rs tok =
     \<lparr> token = tok, game_data = [], riddles = rs, qr_codes = generate_qr_codes rs \<rparr>"

definition create_game_session :: "bot \<Rightarrow> int \<Rightarrow> string \<Rightarrow> int \<Rightarrow> session \<times> bot" where
  "create_game_session b chat_id team now =
     (let s = \<lparr> team_name = team, current_riddle = 0, start_time = now,
                 completed_riddles = [], hints_used = 0, status = ''active'',
                 end_time = None \<rparr>
      in (s, b\<lparr>game_data := AList.update chat_id s (game_data b)\<rparr>))"

definition get_current_riddle :: "bot \<Rightarrow> int \<Rightarrow> py_error + riddle option" where
  "get_current_riddle b chat_id =
     (case map_of (game_data b) chat_id of
        None \<Rightarrow> Inr None
      | Some s \<Rightarrow>
          if current_riddle s \<ge> length (riddles b) then Inr None
          else (case getitem (riddles b) (current_riddle s) of
                  Inl e \<Rightarrow> Inl e
                | Inr r \<Rightarrow> Inr (Some r)))"

definition validate_qr_code :: "bot \<Rightarrow> int \<Rightarrow> string \<Rightarrow> py_error + bool" where
  "validate_qr_code b chat_id qr_data =
     (case get_current_riddle b chat_id of
        Inl e \<Rightarrow> Inl e
      | Inr None \<Rightarrow> Inr False
      | Inr (Some r) \<Rightarrow> Inr (qr_data = qr_code r))"

definition advance_riddle :: "bot \<Rightarrow> int \<Rightarrow> int \<Rightarrow> bool \<times> bot" where
  "advance_riddle b chat_id now =
     (case map_of (game_data b) chat_id of
        None \<Rightarrow> (False, b)
      | Some s \<Rightarrow>
          (let s1 = s\<lparr>completed_riddles := completed_riddles s @ [current_riddle s]\<rparr>;
               s2 = s1\<lparr>current_riddle := current_riddle s1 + 1\<rparr>;
               s3 = (if current_riddle s2 \<ge> length (riddles b)
                     then s2\<lparr>status := ''completed'', end_time := Some now\<rparr>
                     else s2)
           in (True, b\<lparr>game_data := AList.update chat_id s3 (game_data b)\<rparr>)))"

subsection \<open>The leaderboard\<close>

record entry =
  entry_team_name :: string
  duration :: int
  entry_hints_used :: nat
  entry_chat_id :: int

text \<open>The loop of \<^verbatim>\<open>get_leaderboard\<close> over \<^verbatim>\<open>game_data.items()\<close>; reading \<^verbatim>\<open>session["end_time"]\<close>
  raises \<^verbatim>\<open>KeyError\<close> when the key is absent.\<close>

fun completed_games :: "(int \<times> session) list \<Rightarrow> py_error + entry list" where
  "completed_games [] = Inr []"
| "completed_games ((chat_id, s) # items) =
     (if status s = ''completed'' then
        (case end_time s of
           None \<Rightarrow> Inl KeyError
         | Some e \<Rightarrow>
             (case completed_games items of
                Inl err \<Rightarrow> Inl err
              | Inr rest \<Rightarrow>
                  Inr (\<lparr> entry_team_name = team_name s, duration = e - start_time s,
                         entry_hints_used = hints_used s, entry_chat_id = chat_id \<rparr> # rest)))
      else completed_games items)"

text \<open>\<^verbatim>\<open>list.sort(key=...)\<close> is a stable sort; the key is the tuple
  \<^verbatim>\<open>(duration, hints_used)\<close>, compared lexicographically.\<close>

definition sort_by :: "entry \<Rightarrow> int \<times> nat" where
  "sort_by x = (duration x, entry_hints_used x)"

definition get_leaderboard :: "bot \<Rightarrow> py_error + entry list" where
  "get_leaderboard b =
     (case completed_games (game_data b) of
        Inl err \<Rightarrow> Inl err
      | Inr games \<Rightarrow> Inr (sort_key sort_by games))"

subsection \<open>The handlers\<close>

text \<open>What the handlers read of the world outside: \<^verbatim>\<open>os.path.isfile\<close>, and whether
  \<^verbatim>\<open>open(path, "rb")\<close> and the sending of the photo succeed. Sending a text message is taken
  to succeed.\<close>

record env =
  isfile :: "string \<Rightarrow> bool"
  can_open :: "string \<Rightarrow> bool"

text \<open>The messages a handler sends, one constructor for each text in the source.\<close>

datatype reply =
    NotInitialized
  | TeamNameTooShort
  | NoActiveRiddleFound
  | Photo string
  | CouldNotLoadImage
  | RiddleMessage "string option" riddle
  | NoActiveGame
  | AllSolved
  | MapPhoto string
  | CorrectAnswer
  | WrongAnswer
  | HintText string
  | NoRiddleForHint
  | EnterTeamName
  | LeaderboardEmpty
  | LeaderboardText "entry list"
  | HelpText

text \<open>\<^verbatim>\<open>send_riddle\<close>: \<open>team\<close> is \<open>None\<close> for the default \<^verbatim>\<open>team_name=None\<close>; the header of the
  riddle message depends on the truth value of \<^verbatim>\<open>team_name\<close>, and an empty string is false.
  A failure to open or send the image is caught and reported.\<close>

definition send_riddle :: "env \<Rightarrow> bot \<Rightarrow> int \<Rightarrow> string option \<Rightarrow> py_error + reply list" where
  "send_riddle ev b chat_id team =
     (case get_current_riddle b chat_id of
        Inl e \<Rightarrow> Inl e
      | Inr None \<Rightarrow> Inr [NoActiveRiddleFound]
      | Inr (Some r) \<Rightarrow>
          Inr ((case image_path r of
                  None \<Rightarrow> []
                | Some p \<Rightarrow>
                    if p \<noteq> [] \<and> isfile ev p
                    then (if can_open ev p then [Photo p] else [CouldNotLoadImage])
                    else [])
               @ [RiddleMessage (if team = Some [] then None else team) r]))"

text \<open>\<^verbatim>\<open>handle_message\<close>. The arguments are \<^verbatim>\<open>context.bot_data.get('bot_instance')\<close>, the chat,
  the text of the message, \<^verbatim>\<open>context.user_data.get('waiting_for_team_name')\<close> and the clock;
  the result is what was sent (or the exception that left the handler), the bot instance and
  the flag afterwards.

  In the branch for QR codes the first statement reads the local variable
  \<^verbatim>\<open>current_riddle\<close>, which the function assigns only further down (line 380): Python raises
  \<^verbatim>\<open>UnboundLocalError\<close> there, and none of the statements after it in that branch runs.\<close>

definition handle_message ::
  "env \<Rightarrow> bot option \<Rightarrow> int \<Rightarrow> string \<Rightarrow> bool \<Rightarrow> int \<Rightarrow>
     (py_error + reply list) \<times> bot option \<times> bool" where
  "handle_message ev bot_instance chat_id message_text waiting now =
     (case bot_instance of
        None \<Rightarrow> (Inr [NotInitialized], None, waiting)
      | Some b \<Rightarrow>
          (let text = lower (strip message_text) in
           if waiting then
             (let team = strip text in
              if length team < 2 then (Inr [TeamNameTooShort], Some b, waiting)
              else
                (let b' = snd (create_game_session b chat_id team now)
                 in (send_riddle ev b' chat_id (Some team), Some b', False)))
           else if startswith text ''TREASURE_HUNT_'' then (Inl UnboundLocalError, Some b, waiting)
           else
             (case map_of (game_data b) chat_id of
                None \<Rightarrow> (Inr [NoActiveGame], Some b, waiting)
              | Some s \<Rightarrow>
                  if status s \<noteq> ''active'' then (Inr [NoActiveGame], Some b, waiting)
                  else
                    (case get_current_riddle b chat_id of
                       Inl e \<Rightarrow> (Inl e, Some b, waiting)
                     | Inr None \<Rightarrow> (Inr [AllSolved], Some b, waiting)
                     | Inr (Some r) \<Rightarrow>
                         (let correct_answer =
                                lower (strip (case answer r of None \<Rightarrow> [] | Some a \<Rightarrow> a))
                          in
                          if text = correct_answer then
                            (case map_path r of
                               None \<Rightarrow> (Inr [CorrectAnswer], Some b, waiting)
                             | Some p \<Rightarrow>
                                 if p \<noteq> [] \<and> isfile ev p
                                 then (if can_open ev p
                                       then (Inr [MapPhoto p], Some b, waiting)
                                       else (Inl OSError, Some b, waiting))
                                 else (Inr [CorrectAnswer], Some b, waiting))
                          else (Inr [WrongAnswer], Some b, waiting))))))"

text \<open>The statement \<^verbatim>\<open>game_data[chat_id]["hints_used"] += 1\<close> of both hint handlers.\<close>

definition add_hint :: "bot \<Rightarrow> int \<Rightarrow> py_error + bot" where
  "add_hint b chat_id =
     (case map_of (game_data b) chat_id of
        None \<Rightarrow> Inl KeyError
      | Some s \<Rightarrow>
          Inr (b\<lparr>game_data := AList.update chat_id (s\<lparr>hints_used := hints_used s + 1\<rparr>)
                                (game_data b)\<rparr>))"

definition hint_command :: "bot option \<Rightarrow> int \<Rightarrow> (py_error + reply list) \<times> bot option" where
  "hint_command bot_instance chat_id =
     (case bot_instance of
        None \<Rightarrow> (Inr [NotInitialized], None)
      | Some b \<Rightarrow>
          (case get_current_riddle b chat_id of
             Inl e \<Rightarrow> (Inl e, Some b)
           | Inr None \<Rightarrow> (Inr [NoRiddleForHint], Some b)
           | Inr (Some r) \<Rightarrow>
               (case add_hint b chat_id of
                  Inl e \<Rightarrow> (Inl e, Some b)
                | Inr b' \<Rightarrow> (Inr [HintText (hint r)], Some b'))))"

text \<open>\<^verbatim>\<open>button_callback\<close>, on \<^verbatim>\<open>query.data\<close>; the leaderboard shows the first ten entries.\<close>

definition button_callback ::
  "bot option \<Rightarrow> int \<Rightarrow> string \<Rightarrow> bool \<Rightarrow> (py_error + reply list) \<times> bot option \<times> bool" where
  "button_callback bot_instance chat_id data waiting =
     (case bot_instance of
        None \<Rightarrow> (Inr [NotInitialized], None, waiting)
      | Some b \<Rightarrow>
          if data = ''new_game'' then (Inr [EnterTeamName], Some b, True)
          else if data = ''leaderboard'' then
            (case get_leaderboard b of
               Inl e \<Rightarrow> (Inl e, Some b, waiting)
             | Inr leaderboard \<Rightarrow>
                 if leaderboard = [] then (Inr [LeaderboardEmpty], Some b, waiting)
                 else (Inr [LeaderboardText (take 10 leaderboard)], Some b, waiting))
          else if data = ''help'' then (Inr [HelpText], Some b, waiting)
          else if data = ''hint'' then
            (case get_current_riddle b chat_id of
               Inl e \<Rightarrow> (Inl e, Some b, waiting)
             | Inr None \<Rightarrow> (Inr [NoRiddleForHint], Some b, waiting)
             | Inr (Some r) \<Rightarrow>
                 (case add_hint b chat_id of
                    Inl e \<Rightarrow> (Inl e, Some b, waiting)
                  | Inr b' \<Rightarrow> (Inr [HintText (hint r)], Some b', waiting)))
          else (Inr [], Some b, waiting))"

subsection \<open>Start-up\<close>




subsection \<open>Runs of the bot\<close>

text \<open>The calls that reach a bot instance: the two mutating methods of the class, and the
  three handlers that \<^verbatim>\<open>main\<close> registers on it and that write to it.\<close>

datatype event =
    CreateGameSession int string int
  | AdvanceRiddle int int
  | HintCommand int
  | ButtonCallback int string bool
  | HandleMessage env int string bool int

definition the_bot :: "bot \<Rightarrow> bot option \<Rightarrow> bot" where
  "the_bot b r = (case r of None \<Rightarrow> b | Some b' \<Rightarrow> b')"

fun step :: "bot \<Rightarrow> event \<Rightarrow> bot" where
  "step b (CreateGameSession c team now) = snd (create_game_session b c team now)"
| "step b (AdvanceRiddle c now) = snd (advance_riddle b c now)"
| "step b (HintCommand c) = the_bot b (snd (hint_command (Some b) c))"
| "step b (ButtonCallback c data w) = the_bot b (fst (snd (button_callback (Some b) c data w)))"
| "step b (HandleMessage ev c txt w now) =
     the_bot b (fst (snd (handle_message ev (Some b) c txt w now)))"

definition run :: "bot \<Rightarrow> event list \<Rightarrow> bot" where
  "run b evs = foldl step b evs"

subsection \<open>Invariants of a run\<close>

text \<open>What holds of every session of a bot that started with no sessions: the completed
  positions are \<open>0, 1, ...\<close> up to the current one, and a completed session is past the
  end of the catalog and has its end time.\<close>

definition session_ok :: "nat \<Rightarrow> session \<Rightarrow> bool" where
  "session_ok n s =
     (completed_riddles s = [0..<current_riddle s] \<and>
      (status s = ''active'' \<or> status s = ''completed'') \<and>
      (status s = ''completed'' \<longrightarrow> n \<le> current_riddle s \<and> end_time s \<noteq> None))"

definition bot_ok :: "bot \<Rightarrow> bool" where
  "bot_ok b =
     (distinct (map fst (game_data b)) \<and>
      list_all (\<lambda>(c, s). session_ok (length (riddles b)) s) (game_data b))"

text \<open>The events that are operations of the progression engine on existing sessions:
  everything but the creation of a session (directly, or by a message that is taken as a
  team name).\<close>

fun engine_op :: "event \<Rightarrow> bool" where
  "engine_op (CreateGameSession c team now) = False"
| "engine_op (AdvanceRiddle c now) = True"
| "engine_op (HintCommand c) = True"
| "engine_op (ButtonCallback c d w) = True"
| "engine_op (HandleMessage ev c txt w now) = (\<not> w)"

subsection \<open>Notions used in the statements\<close>

text \<open>The fields of a session that record its progress.\<close>

definition frame_of :: "session \<Rightarrow> nat \<times> nat list \<times> string \<times> int \<times> int option" where
  "frame_of s = (current_riddle s, completed_riddles s, status s, start_time s, end_time s)"

text \<open>Concrete inputs on which the statements below are evaluated: a world without image
  files, a run in which two teams finish the shipped catalog (team alpha in ten minutes
  with two hints, team beta in eight minutes with five), a catalog that repeats a riddle,
  and two command lines.\<close>

definition no_files :: env where
  "no_files = \<lparr> isfile = (\<lambda>p. False), can_open = (\<lambda>p. False) \<rparr>"

definition two_teams :: "event list" where
  "two_teams =
     [CreateGameSession 1 ''alpha'' 0, CreateGameSession 2 ''beta'' 0,
      HintCommand 1, HintCommand 1,
      HintCommand 2, HintCommand 2, HintCommand 2, HintCommand 2, HintCommand 2,
      AdvanceRiddle 1 100000000, AdvanceRiddle 2 110000000,
      AdvanceRiddle 1 200000000, AdvanceRiddle 2 210000000,
      AdvanceRiddle 1 300000000, AdvanceRiddle 2 310000000,
      AdvanceRiddle 2 480000000, AdvanceRiddle 1 600000000]"




section \<open>Properties\<close>

subsection \<open>Auxiliary facts\<close>

lemma lower_char_not_T: "lower_char c \<noteq> CHR ''T''"
proof -
  have "of_char (lower_char c) \<noteq> (84::nat)"
    by (auto simp: lower_char_def Let_def)
  then show ?thesis by auto
qed

lemma qr_branch_unreachable: "\<not> startswith (lower s) ''TREASURE_HUNT_''"
  by (cases s) (auto simp: startswith_def lower_def lower_char_not_T)

lemma get_current_riddle_eq:
  "get_current_riddle b c =
     Inr (case map_of (game_data b) c of
            None \<Rightarrow> None
          | Some s \<Rightarrow> if current_riddle s < length (riddles b)
                      then Some (riddles b ! current_riddle s) else None)"
  by (simp add: get_current_riddle_def getitem_def split: option.splits)

lemma set_update_subset: "set (AList.update k v al) \<subseteq> insert (k, v) (set al)"
  by (induction al) auto

lemma bot_ok_init: "bot_ok (init_bot rs tok)"
  by (simp add: bot_ok_def init_bot_def)

lemma bot_ok_lookup:
  "bot_ok b \<Longrightarrow> map_of (game_data b) c = Some s \<Longrightarrow> session_ok (length (riddles b)) s"
  by (auto simp: bot_ok_def list_all_iff dest: map_of_SomeD)

lemma bot_ok_update:
  assumes "bot_ok b" and "session_ok (length (riddles b)) s"
  shows "bot_ok (b\<lparr>game_data := AList.update c s (game_data b)\<rparr>)"
proof -
  have "distinct (map fst (AList.update c s (game_data b)))"
    using assms(1) by (simp add: bot_ok_def distinct_update)
  moreover have "\<forall>p \<in> set (AList.update c s (game_data b)).
      session_ok (length (riddles b)) (snd p)"
  proof
    fix p assume "p \<in> set (AList.update c s (game_data b))"
    then have "p = (c, s) \<or> p \<in> set (game_data b)"
      using set_update_subset [of c s "game_data b"] by auto
    then show "session_ok (length (riddles b)) (snd p)"
      using assms by (auto simp: bot_ok_def list_all_iff)
  qed
  ultimately show ?thesis
    by (simp add: bot_ok_def list_all_iff case_prod_beta)
qed

lemma session_ok_fresh:
  "session_ok n \<lparr> team_name = team, current_riddle = 0, start_time = now,
                 completed_riddles = [], hints_used = 0, status = ''active'',
                 end_time = None \<rparr>"
  by (simp add: session_ok_def)

lemma create_game_session_ok:
  "bot_ok b \<Longrightarrow> bot_ok (snd (create_game_session b c team now))"
  by (simp add: create_game_session_def Let_def bot_ok_update session_ok_fresh)

lemma create_game_session_riddles:
  "riddles (snd (create_game_session b c team now)) = riddles b"
  by (simp add: create_game_session_def Let_def)

lemma session_ok_advance:
  assumes "session_ok n s"
  shows "session_ok n
     (if n \<le> current_riddle s + 1
      then s\<lparr>completed_riddles := completed_riddles s @ [current_riddle s],
             current_riddle := current_riddle s + 1,
             status := ''completed'', end_time := Some now\<rparr>
      else s\<lparr>completed_riddles := completed_riddles s @ [current_riddle s],
             current_riddle := current_riddle s + 1\<rparr>)"
  using assms by (auto simp: session_ok_def)

lemma advance_riddle_eq:
  "advance_riddle b c now =
     (case map_of (game_data b) c of
        None \<Rightarrow> (False, b)
      | Some s \<Rightarrow>
          (True, b\<lparr>game_data := AList.update c
             (if length (riddles b) \<le> current_riddle s + 1
              then s\<lparr>completed_riddles := completed_riddles s @ [current_riddle s],
                     current_riddle := current_riddle s + 1,
                     status := ''completed'', end_time := Some now\<rparr>
              else s\<lparr>completed_riddles := completed_riddles s @ [current_riddle s],
                     current_riddle := current_riddle s + 1\<rparr>)
             (game_data b)\<rparr>))"
  by (simp add: advance_riddle_def Let_def split: option.splits)

lemma advance_riddle_ok:
  assumes "bot_ok b"
  shows "bot_ok (snd (advance_riddle b c now))"
proof (cases "map_of (game_data b) c")
  case None
  then show ?thesis using assms by (simp add: advance_riddle_eq)
next
  case (Some s)
  then have "session_ok (length (riddles b)) s"
    using assms by (rule bot_ok_lookup [rotated])
  then show ?thesis
    using Some assms bot_ok_update session_ok_advance
    by (simp add: advance_riddle_eq)
qed

lemma advance_riddle_riddles: "riddles (snd (advance_riddle b c now)) = riddles b"
  by (simp add: advance_riddle_eq split: option.splits)

lemma add_hint_ok:
  assumes "bot_ok b" and "add_hint b c = Inr b'"
  shows "bot_ok b'"
proof (cases "map_of (game_data b) c")
  case None
  then show ?thesis using assms by (simp add: add_hint_def)
next
  case (Some s)
  then have "session_ok (length (riddles b)) s"
    using assms(1) by (rule bot_ok_lookup [rotated])
  then have "session_ok (length (riddles b)) (s\<lparr>hints_used := hints_used s + 1\<rparr>)"
    by (simp add: session_ok_def)
  then show ?thesis
    using Some assms bot_ok_update by (auto simp: add_hint_def)
qed

lemma add_hint_riddles: "add_hint b c = Inr b' \<Longrightarrow> riddles b' = riddles b"
  by (auto simp: add_hint_def split: option.splits)

lemma hint_command_ok: "bot_ok b \<Longrightarrow> bot_ok (the_bot b (snd (hint_command (Some b) c)))"
  by (auto simp: hint_command_def the_bot_def get_current_riddle_eq
      split: option.splits sum.splits dest: add_hint_ok)

lemma hint_command_riddles: "riddles (the_bot b (snd (hint_command (Some b) c))) = riddles b"
  by (auto simp: hint_command_def the_bot_def get_current_riddle_eq
      split: option.splits sum.splits dest: add_hint_riddles)

lemma button_callback_ok:
  "bot_ok b \<Longrightarrow> bot_ok (the_bot b (fst (snd (button_callback (Some b) c d w))))"
  by (auto simp: button_callback_def the_bot_def get_current_riddle_eq
      split: option.splits sum.splits dest: add_hint_ok)

lemma button_callback_riddles:
  "riddles (the_bot b (fst (snd (button_callback (Some b) c d w)))) = riddles b"
  by (auto simp: button_callback_def the_bot_def get_current_riddle_eq
      split: option.splits sum.splits dest: add_hint_riddles)

lemma handle_message_ok:
  "bot_ok b \<Longrightarrow> bot_ok (the_bot b (fst (snd (handle_message ev (Some b) c t w now))))"
  by (auto simp: handle_message_def the_bot_def Let_def create_game_session_ok
      split: option.splits sum.splits)

lemma handle_message_riddles:
  "riddles (the_bot b (fst (snd (handle_message ev (Some b) c t w now)))) = riddles b"
  by (auto simp: handle_message_def the_bot_def Let_def create_game_session_riddles
      split: option.splits sum.splits)

lemma step_ok: "bot_ok b \<Longrightarrow> bot_ok (step b e)"
  by (cases e)
     (simp_all add: create_game_session_ok advance_riddle_ok hint_command_ok
        button_callback_ok handle_message_ok)

lemma step_riddles: "riddles (step b e) = riddles b"
  by (cases e)
     (simp_all add: create_game_session_riddles advance_riddle_riddles hint_command_riddles
        button_callback_riddles handle_message_riddles)

lemma run_ok: "bot_ok b \<Longrightarrow> bot_ok (run b evs)"
  unfolding run_def by (induction evs arbitrary: b) (simp_all add: step_ok)

lemma run_riddles: "riddles (run b evs) = riddles b"
  unfolding run_def by (induction evs arbitrary: b) (simp_all add: step_riddles)

lemma run_init_ok: "bot_ok (run (init_bot rs tok) evs)"
  by (simp add: run_ok bot_ok_init)

lemma run_snoc: "run b (evs @ [e]) = step (run b evs) e"
  by (simp add: run_def)

lemma run_append: "run b (evs @ evs') = run (run b evs) evs'"
  by (simp add: run_def)

lemma advances_fresh:
  "map_of (game_data (run (snd (create_game_session b c team t0)) (map (AdvanceRiddle c) ts))) c =
     Some \<lparr> team_name = team, current_riddle = length ts, start_time = t0,
            completed_riddles = [0..<length ts], hints_used = 0,
            status = (if ts \<noteq> [] \<and> length (riddles b) \<le> length ts
                      then ''completed'' else ''active''),
            end_time = (if ts \<noteq> [] \<and> length (riddles b) \<le> length ts
                        then Some (last ts) else None) \<rparr>"
proof (induction ts rule: rev_induct)
  case Nil
  show ?case
    by (simp add: run_def create_game_session_def Let_def update_conv')
next
  case (snoc t ts)
  have r: "riddles (run (snd (create_game_session b c team t0)) (map (AdvanceRiddle c) ts))
             = riddles b"
    by (simp add: run_riddles create_game_session_riddles)
  show ?case
    using snoc.IH
    by (simp add: run_snoc advance_riddle_eq r update_conv')
qed

lemma handle_message_frame:
  "snd (handle_message ev (Some b) c txt False now) = (Some b, False)"
  by (simp add: handle_message_def Let_def split: option.splits sum.splits)

lemma add_hint_eq:
  "map_of (game_data b) c = Some s \<Longrightarrow>
   add_hint b c =
     Inr (b\<lparr>game_data := AList.update c (s\<lparr>hints_used := hints_used s + 1\<rparr>) (game_data b)\<rparr>)"
  by (simp add: add_hint_def)

lemma hint_command_some:
  assumes "map_of (game_data b) c = Some s" and "current_riddle s < length (riddles b)"
  shows "hint_command (Some b) c =
           (Inr [HintText (hint (riddles b ! current_riddle s))],
            Some (b\<lparr>game_data :=
                      AList.update c (s\<lparr>hints_used := hints_used s + 1\<rparr>) (game_data b)\<rparr>))"
  using assms by (simp add: hint_command_def get_current_riddle_eq add_hint_eq)

lemma hint_command_none:
  assumes "map_of (game_data b) c = None \<or>
           (\<exists>s. map_of (game_data b) c = Some s \<and> length (riddles b) \<le> current_riddle s)"
  shows "hint_command (Some b) c = (Inr [NoRiddleForHint], Some b)"
  using assms by (auto simp: hint_command_def get_current_riddle_eq)

lemma button_hint_some:
  assumes "map_of (game_data b) c = Some s" and "current_riddle s < length (riddles b)"
  shows "button_callback (Some b) c ''hint'' w =
           (Inr [HintText (hint (riddles b ! current_riddle s))],
            Some (b\<lparr>game_data :=
                      AList.update c (s\<lparr>hints_used := hints_used s + 1\<rparr>) (game_data b)\<rparr>),
            w)"
  using assms by (simp add: button_callback_def get_current_riddle_eq add_hint_eq)

lemma button_hint_none:
  assumes "map_of (game_data b) c = None \<or>
           (\<exists>s. map_of (game_data b) c = Some s \<and> length (riddles b) \<le> current_riddle s)"
  shows "button_callback (Some b) c ''hint'' w = (Inr [NoRiddleForHint], Some b, w)"
  using assms by (auto simp: button_callback_def get_current_riddle_eq)

lemma button_other:
  "d \<noteq> ''hint'' \<Longrightarrow> fst (snd (button_callback (Some b) c d w)) = Some b"
  by (simp add: button_callback_def split: sum.splits)

text \<open>What a step does to the session of one chat.\<close>

lemma step_hint_session:
  "map_of (game_data (step b (HintCommand c'))) c =
     (if c' = c then
        (case map_of (game_data b) c of
           None \<Rightarrow> None
         | Some s \<Rightarrow> if current_riddle s < length (riddles b)
                     then Some (s\<lparr>hints_used := hints_used s + 1\<rparr>) else Some s)
      else map_of (game_data b) c)"
proof (cases "map_of (game_data b) c'")
  case None
  then show ?thesis by (auto simp: hint_command_none the_bot_def)
next
  case (Some s)
  show ?thesis
  proof (cases "current_riddle s < length (riddles b)")
    case True
    then show ?thesis using Some
      by (auto simp: hint_command_some the_bot_def update_conv')
  next
    case False
    then show ?thesis using Some by (auto simp: hint_command_none the_bot_def)
  qed
qed

lemma step_button_session:
  "map_of (game_data (step b (ButtonCallback c' d w))) c =
     (if c' = c \<and> d = ''hint'' then
        (case map_of (game_data b) c of
           None \<Rightarrow> None
         | Some s \<Rightarrow> if current_riddle s < length (riddles b)
                     then Some (s\<lparr>hints_used := hints_used s + 1\<rparr>) else Some s)
      else map_of (game_data b) c)"
proof (cases "d = ''hint''")
  case False
  then show ?thesis by (simp add: button_other the_bot_def)
next
  case d: True
  show ?thesis
  proof (cases "map_of (game_data b) c'")
    case None
    then show ?thesis using d by (auto simp: button_hint_none the_bot_def)
  next
    case (Some s)
    show ?thesis
    proof (cases "current_riddle s < length (riddles b)")
      case True
      then show ?thesis using Some d
        by (auto simp: button_hint_some the_bot_def update_conv')
    next
      case False
      then show ?thesis using Some d by (auto simp: button_hint_none the_bot_def)
    qed
  qed
qed

lemma step_advance_session:
  "map_of (game_data (step b (AdvanceRiddle c' now))) c =
     (if c' = c then
        (case map_of (game_data b) c of
           None \<Rightarrow> None
         | Some s \<Rightarrow>
             Some (if length (riddles b) \<le> current_riddle s + 1
              then s\<lparr>completed_riddles := completed_riddles s @ [current_riddle s],
                     current_riddle := current_riddle s + 1,
                     status := ''completed'', end_time := Some now\<rparr>
              else s\<lparr>completed_riddles := completed_riddles s @ [current_riddle s],
                     current_riddle := current_riddle s + 1\<rparr>))
      else map_of (game_data b) c)"
  by (auto simp: advance_riddle_eq update_conv' split: option.splits)

lemma step_message_session:
  "map_of (game_data (step b (HandleMessage ev c' msg False now))) c = map_of (game_data b) c"
  using handle_message_frame [of ev b c' msg now]
  by (simp add: the_bot_def split_pairs)

lemma step_keeps_completed:
  assumes "engine_op e" and "map_of (game_data b) c = Some s" and "status s = ''completed''"
  shows "\<exists>s'. map_of (game_data (step b e)) c = Some s' \<and> status s' = ''completed''"
proof (cases e)
  case (CreateGameSession x1 x2 x3)
  then show ?thesis using assms by simp
next
  case (AdvanceRiddle c' now)
  then show ?thesis using assms by (auto simp: step_advance_session simp del: step.simps)
next
  case (HintCommand c')
  then show ?thesis using assms by (auto simp: step_hint_session simp del: step.simps)
next
  case (ButtonCallback c' d w)
  then show ?thesis using assms by (auto simp: step_button_session simp del: step.simps)
next
  case (HandleMessage ev c' msg w now)
  then show ?thesis using assms by (auto simp: step_message_session simp del: step.simps)
qed

lemma run_keeps_completed:
  assumes "list_all engine_op ops" and "map_of (game_data b) c = Some s"
    and "status s = ''completed''"
  shows "\<exists>s'. map_of (game_data (run b ops)) c = Some s' \<and> status s' = ''completed''"
  using assms
proof (induction ops arbitrary: b s)
  case Nil
  then show ?case by (simp add: run_def)
next
  case (Cons e ops)
  from Cons.prems obtain s1 where
    "map_of (game_data (step b e)) c = Some s1" "status s1 = ''completed''"
    using step_keeps_completed [of e b c s] by auto
  with Cons.IH [of "step b e" s1] Cons.prems(1) show ?case
    by (simp add: run_def)
qed

lemma completed_no_riddle:
  assumes "bot_ok b" and "map_of (game_data b) c = Some s" and "status s = ''completed''"
  shows "length (riddles b) \<le> current_riddle s"
  using bot_ok_lookup [OF assms(1,2)] assms(3) by (simp add: session_ok_def)

lemma handle_message_verdict:
  assumes "map_of (game_data b) c = Some s" and "status s = ''active''"
    and "current_riddle s < length (riddles b)"
    and "answer (riddles b ! current_riddle s) = None"
  shows "(fst (handle_message ev (Some b) c msg False now) = Inr [WrongAnswer]) =
           (lower (strip msg) \<noteq> [])"
proof -
  have e: "lower (strip []) = []" by (simp add: lower_def strip_def)
  show ?thesis
    using assms
    by (auto simp: handle_message_def Let_def qr_branch_unreachable get_current_riddle_eq e
          split: option.splits)
qed

lemma completed_games_total:
  "list_all (\<lambda>(c, s). session_ok n s) gd \<Longrightarrow> \<exists>gs. completed_games gd = Inr gs"
  by (induction gd) (auto simp: session_ok_def)

lemma completed_games_chats:
  "completed_games gd = Inr gs \<Longrightarrow>
   map entry_chat_id gs = map fst (filter (\<lambda>(c, s). status s = ''completed'') gd)"
  by (induction gd arbitrary: gs) (auto split: if_splits option.splits sum.splits)

lemma completed_games_entry:
  "completed_games gd = Inr gs \<Longrightarrow> e \<in> set gs \<Longrightarrow>
   \<exists>s. (entry_chat_id e, s) \<in> set gd \<and> status s = ''completed'' \<and>
       entry_team_name e = team_name s \<and> end_time s = Some (start_time s + duration e) \<and>
       entry_hints_used e = hints_used s"
proof (induction gd arbitrary: gs)
  case Nil
  then show ?case by simp
next
  case (Cons p gd)
  obtain c s where p: "p = (c, s)" by (cases p)
  show ?case
  proof (cases "status s = ''completed''")
    case False
    with Cons p show ?thesis by fastforce
  next
    case True
    with Cons.prems p obtain t rest where
      t: "end_time s = Some t" and rest: "completed_games gd = Inr rest" and
      gs: "gs = \<lparr> entry_team_name = team_name s, duration = t - start_time s,
                   entry_hints_used = hints_used s, entry_chat_id = c \<rparr> # rest"
      by (auto split: option.splits sum.splits)
    show ?thesis
    proof (cases "e \<in> set rest")
      case True
      from Cons.IH [OF rest this] show ?thesis by fastforce
    next
      case False
      with Cons.prems(2) gs have "e = \<lparr> entry_team_name = team_name s, duration = t - start_time s,
                   entry_hints_used = hints_used s, entry_chat_id = c \<rparr>" by simp
      then show ?thesis using p t True by (intro exI [of _ s]) simp
    qed
  qed
qed

lemma filter_keys_distinct:
  assumes "distinct (map fst gd)"
    and "\<And>c. Q c \<Longrightarrow> c \<in> fst ` {p \<in> set gd. C p}"
  shows "filter Q (map fst (filter C gd)) = filter Q (map fst gd)"
proof -
  have "\<And>p. p \<in> set gd \<Longrightarrow> Q (fst p) \<Longrightarrow> C p"
  proof -
    fix p assume p: "p \<in> set gd" "Q (fst p)"
    then obtain p' where p': "p' \<in> set gd" "C p'" "fst p' = fst p"
      using assms(2) by force
    with p assms(1) have "p' = p"
      by (metis eq_key_imp_eq_value prod.collapse)
    with p' show "C p" by simp
  qed
  then have "filter (\<lambda>p. Q (fst p)) (filter C gd) = filter (\<lambda>p. Q (fst p)) gd"
    by (auto simp: filter_filter intro: filter_cong)
  then show ?thesis
    by (simp add: filter_map comp_def)
qed

lemma sorted_lex_nth:
  assumes "sorted (map sort_by lb)" and "i < j" and "j < length lb"
  shows "duration (lb ! i) < duration (lb ! j) \<or>
         (duration (lb ! i) = duration (lb ! j) \<and>
          entry_hints_used (lb ! i) \<le> entry_hints_used (lb ! j))"
proof -
  have "map sort_by lb ! i \<le> map sort_by lb ! j"
    using assms by (intro sorted_nth_mono) auto
  then have "sort_by (lb ! i) \<le> sort_by (lb ! j)"
    using assms by simp
  then show ?thesis
    by (auto simp: sort_by_def less_eq_prod_def)
qed

lemma leaderboard_of_games:
  assumes ok: "bot_ok b" and gs: "completed_games (game_data b) = Inr gs"
  shows "get_leaderboard b = Inr (sort_key sort_by gs)"
    and "distinct (map entry_chat_id (sort_key sort_by gs))"
    and "set (map entry_chat_id (sort_key sort_by gs)) =
           {c. \<exists>s. map_of (game_data b) c = Some s \<and> status s = ''completed''}"
    and "\<forall>e \<in> set (sort_key sort_by gs).
           \<exists>s. map_of (game_data b) (entry_chat_id e) = Some s \<and> status s = ''completed'' \<and>
             entry_team_name e = team_name s \<and>
             end_time s = Some (start_time s + duration e) \<and>
             entry_hints_used e = hints_used s"
    and "map entry_chat_id (filter (\<lambda>e. sort_by e = k) (sort_key sort_by gs)) =
           filter (\<lambda>c. \<exists>e \<in> set (sort_key sort_by gs). entry_chat_id e = c \<and> sort_by e = k)
             (map fst (game_data b))"
proof -
  let ?gd = "game_data b"
  let ?C = "\<lambda>(c, s). status s = ''completed''"
  have d: "distinct (map fst ?gd)" using ok by (simp add: bot_ok_def)
  have chats: "map entry_chat_id gs = map fst (filter ?C ?gd)"
    using gs by (rule completed_games_chats)
  have dg: "distinct (map entry_chat_id gs)"
    unfolding chats using d by (simp add: distinct_map_filter)
  show "get_leaderboard b = Inr (sort_key sort_by gs)"
    using gs by (simp add: get_leaderboard_def)
  have "mset (map entry_chat_id (sort_key sort_by gs)) = mset (map entry_chat_id gs)"
    by simp
  then show "distinct (map entry_chat_id (sort_key sort_by gs))"
    using dg by (metis mset_eq_imp_distinct_iff)
  have "set (map entry_chat_id gs) =
          {c. \<exists>s. map_of ?gd c = Some s \<and> status s = ''completed''}"
    unfolding chats using d by (auto simp: image_iff)
  then show "set (map entry_chat_id (sort_key sort_by gs)) =
           {c. \<exists>s. map_of ?gd c = Some s \<and> status s = ''completed''}"
    by simp
  show "\<forall>e \<in> set (sort_key sort_by gs).
           \<exists>s. map_of ?gd (entry_chat_id e) = Some s \<and> status s = ''completed'' \<and>
             entry_team_name e = team_name s \<and>
             end_time s = Some (start_time s + duration e) \<and>
             entry_hints_used e = hints_used s"
  proof
    fix e assume "e \<in> set (sort_key sort_by gs)"
    then have "e \<in> set gs" by simp
    from completed_games_entry [OF gs this] d show
      "\<exists>s. map_of ?gd (entry_chat_id e) = Some s \<and> status s = ''completed'' \<and>
             entry_team_name e = team_name s \<and>
             end_time s = Some (start_time s + duration e) \<and>
             entry_hints_used e = hints_used s"
      by auto
  qed
  let ?Q = "\<lambda>c. \<exists>e \<in> set (sort_key sort_by gs). entry_chat_id e = c \<and> sort_by e = k"
  have inj: "inj_on entry_chat_id (set gs)"
    using dg by (simp add: distinct_map)
  have "filter (\<lambda>e. sort_by e = k) gs = filter (\<lambda>e. ?Q (entry_chat_id e)) gs"
    using inj by (intro filter_cong) (auto dest: inj_onD)
  then have "map entry_chat_id (filter (\<lambda>e. sort_by e = k) gs) = filter ?Q (map entry_chat_id gs)"
    by (simp add: filter_map comp_def)
  also have "\<dots> = filter ?Q (map fst (filter ?C ?gd))"
    by (simp only: chats)
  also have "\<dots> = filter ?Q (map fst ?gd)"
  proof (rule filter_keys_distinct [OF d])
    fix c assume "?Q c"
    then have "c \<in> set (map entry_chat_id gs)" by auto
    then show "c \<in> fst ` {p \<in> set ?gd. ?C p}"
      unfolding chats by auto
  qed
  finally show "map entry_chat_id (filter (\<lambda>e. sort_by e = k) (sort_key sort_by gs)) =
           filter ?Q (map fst ?gd)"
    by (simp add: sort_key_stable)
qed

lemma leaderboard_ok:
  assumes "bot_ok b"
  shows "\<exists>lb. get_leaderboard b = Inr lb \<and>
     distinct (map entry_chat_id lb) \<and>
     set (map entry_chat_id lb) =
       {c. \<exists>s. map_of (game_data b) c = Some s \<and> status s = ''completed''} \<and>
     (\<forall>e \<in> set lb.
        \<exists>s. map_of (game_data b) (entry_chat_id e) = Some s \<and> status s = ''completed'' \<and>
          entry_team_name e = team_name s \<and>
          end_time s = Some (start_time s + duration e) \<and>
          entry_hints_used e = hints_used s) \<and>
     (\<forall>i j. i < j \<and> j < length lb \<longrightarrow>
        duration (lb ! i) < duration (lb ! j) \<or>
        (duration (lb ! i) = duration (lb ! j) \<and>
         entry_hints_used (lb ! i) \<le> entry_hints_used (lb ! j))) \<and>
     (\<forall>k. map entry_chat_id (filter (\<lambda>e. sort_by e = k) lb) =
          filter (\<lambda>c. \<exists>e \<in> set lb. entry_chat_id e = c \<and> sort_by e = k)
            (map fst (game_data b)))"
proof -
  from assms obtain gs where gs: "completed_games (game_data b) = Inr gs"
    using completed_games_total [of "length (riddles b)" "game_data b"]
    by (auto simp: bot_ok_def)
  let ?lb = "sort_key sort_by gs"
  note L = leaderboard_of_games [OF assms gs]
  have sorted: "\<forall>i j. i < j \<and> j < length ?lb \<longrightarrow>
        duration (?lb ! i) < duration (?lb ! j) \<or>
        (duration (?lb ! i) = duration (?lb ! j) \<and>
         entry_hints_used (?lb ! i) \<le> entry_hints_used (?lb ! j))"
    using sorted_lex_nth [of ?lb] by simp
  show ?thesis
    using L(1) L(2) L(3) L(4) sorted L(5) by (intro exI [of _ ?lb]) blast
qed


section \<open>The claims\<close>

subsection \<open>C1: advancing\<close>

text \<open>
  Claim C1. \<^verbatim>\<open>advance_riddle\<close> on a chat without a session returns \<open>False\<close> and changes
  nothing. On a chat with a session it returns \<open>True\<close>, appends the current position to
  \<^verbatim>\<open>completed_riddles\<close>, adds one to \<^verbatim>\<open>current_riddle\<close>, and leaves the team name, the start
  time, the hint count, the catalog and every other chat as they were; the status becomes
  \<^verbatim>\<open>completed\<close> and \<^verbatim>\<open>end_time\<close> the current time exactly when the new position is at (or
  beyond) the length of the catalog, and otherwise neither field changes. For an active
  session that is still inside the catalog this is the moment the new position equals the
  length. Consequently a fresh session that is advanced \<open>k\<close> times is at position \<open>k\<close>, is
  still active after every \<open>k\<close> below the length \<open>N\<close> of the catalog, and is completed after
  the \<open>N\<close>-th call.
\<close>

theorem advance_riddle_spec:
  "(map_of (game_data b) c = None \<longrightarrow> advance_riddle b c now = (False, b)) \<and>
   (\<forall>s. map_of (game_data b) c = Some s \<longrightarrow>
      fst (advance_riddle b c now) = True \<and>
      riddles (snd (advance_riddle b c now)) = riddles b \<and>
      (\<forall>c'. c' \<noteq> c \<longrightarrow>
         map_of (game_data (snd (advance_riddle b c now))) c' = map_of (game_data b) c') \<and>
      (\<exists>s'. map_of (game_data (snd (advance_riddle b c now))) c = Some s' \<and>
         completed_riddles s' = completed_riddles s @ [current_riddle s] \<and>
         current_riddle s' = current_riddle s + 1 \<and>
         team_name s' = team_name s \<and> start_time s' = start_time s \<and>
         hints_used s' = hints_used s \<and>
         (if length (riddles b) \<le> current_riddle s'
          then status s' = ''completed'' \<and> end_time s' = Some now
          else status s' = status s \<and> end_time s' = end_time s) \<and>
         (status s = ''active'' \<and> current_riddle s < length (riddles b) \<longrightarrow>
            (status s' = ''completed'') = (current_riddle s' = length (riddles b))))) \<and>
   (\<forall>ts. \<exists>s. map_of (game_data (run (snd (create_game_session b c team t0))
                                     (map (AdvanceRiddle c) ts))) c = Some s \<and>
      current_riddle s = length ts \<and>
      (length ts < length (riddles b) \<longrightarrow> status s = ''active'') \<and>
      (ts \<noteq> [] \<and> length ts = length (riddles b) \<longrightarrow> status s = ''completed''))"
proof (intro conjI allI impI)
  assume "map_of (game_data b) c = None"
  then show "advance_riddle b c now = (False, b)"
    by (simp add: advance_riddle_eq)
next
  fix s assume s: "map_of (game_data b) c = Some s"
  show "fst (advance_riddle b c now) = True"
    using s by (simp add: advance_riddle_eq)
  show "riddles (snd (advance_riddle b c now)) = riddles b"
    by (rule advance_riddle_riddles)
  show "\<exists>s'. map_of (game_data (snd (advance_riddle b c now))) c = Some s' \<and>
         completed_riddles s' = completed_riddles s @ [current_riddle s] \<and>
         current_riddle s' = current_riddle s + 1 \<and>
         team_name s' = team_name s \<and> start_time s' = start_time s \<and>
         hints_used s' = hints_used s \<and>
         (if length (riddles b) \<le> current_riddle s'
          then status s' = ''completed'' \<and> end_time s' = Some now
          else status s' = status s \<and> end_time s' = end_time s) \<and>
         (status s = ''active'' \<and> current_riddle s < length (riddles b) \<longrightarrow>
            (status s' = ''completed'') = (current_riddle s' = length (riddles b)))"
    using s by (auto simp: advance_riddle_eq update_conv')
  fix c' assume "c' \<noteq> c"
  then show "map_of (game_data (snd (advance_riddle b c now))) c' = map_of (game_data b) c'"
    using s by (simp add: advance_riddle_eq update_conv')
next
  fix ts
  show "\<exists>s. map_of (game_data (run (snd (create_game_session b c team t0))
                                     (map (AdvanceRiddle c) ts))) c = Some s \<and>
      current_riddle s = length ts \<and>
      (length ts < length (riddles b) \<longrightarrow> status s = ''active'') \<and>
      (ts \<noteq> [] \<and> length ts = length (riddles b) \<longrightarrow> status s = ''completed'')"
    by (simp add: advances_fresh)
qed

theorem advance_riddle_spec_witness:
  "map_of (game_data (init_bot load_riddles ''tok'')) 7 = None \<and>
   advance_riddle (init_bot load_riddles ''tok'') 7 5 = (False, init_bot load_riddles ''tok'') \<and>
   fst (advance_riddle (snd (create_game_session (init_bot load_riddles ''tok'') 7 ''foo'' 0)) 7 5)
     = True \<and>
   map_option completed_riddles (map_of (game_data (snd
      (advance_riddle (snd (create_game_session (init_bot load_riddles ''tok'') 7 ''foo'' 0)) 7 5)))
      7) = Some [0] \<and>
   map_option status (map_of (game_data
      (run (snd (create_game_session (init_bot load_riddles ''tok'') 7 ''foo'' 0))
           (map (AdvanceRiddle 7) [1, 2, 3]))) 7) = Some ''active'' \<and>
   map_option status (map_of (game_data
      (run (snd (create_game_session (init_bot load_riddles ''tok'') 7 ''foo'' 0))
           (map (AdvanceRiddle 7) [1, 2, 3, 4]))) 7) = Some ''completed''"
proof -
  let ?b = "init_bot load_riddles ''tok''"
  let ?fresh = "snd (create_game_session ?b 7 ''foo'' 0)"
  let ?new = "\<lparr> team_name = ''foo'', current_riddle = 0, start_time = 0,
              completed_riddles = [], hints_used = 0, status = ''active'',
              end_time = None \<rparr>"
  note spec = advance_riddle_spec [of ?b 7 5 "''foo''" 0]
  have n: "length (riddles ?b) = 4" by code_simp
  have none: "map_of (game_data ?b) 7 = None" by code_simp
  from spec none have 1: "advance_riddle ?b 7 5 = (False, ?b)" by blast
  have s0: "map_of (game_data ?fresh) 7 = Some ?new" by code_simp
  from advance_riddle_spec [of ?fresh 7 5 "''foo''" 0] s0
  have t: "fst (advance_riddle ?fresh 7 5) = True"
    and "\<exists>s'. map_of (game_data (snd (advance_riddle ?fresh 7 5))) 7 = Some s' \<and>
           completed_riddles s' = completed_riddles ?new @ [current_riddle ?new]"
    by blast+
  then have a: "map_option completed_riddles
      (map_of (game_data (snd (advance_riddle ?fresh 7 5))) 7) = Some [0]"
    by auto
  from spec have runs: "\<forall>ts. \<exists>s. map_of (game_data (run ?fresh (map (AdvanceRiddle 7) ts))) 7 = Some s \<and>
      current_riddle s = length ts \<and>
      (length ts < length (riddles ?b) \<longrightarrow> status s = ''active'') \<and>
      (ts \<noteq> [] \<and> length ts = length (riddles ?b) \<longrightarrow> status s = ''completed'')"
    by blast
  from runs [rule_format, of "[1, 2, 3]"] n
  have 2: "map_option status (map_of (game_data (run ?fresh (map (AdvanceRiddle 7) [1, 2, 3]))) 7)
      = Some ''active''"
    by auto
  from runs [rule_format, of "[1, 2, 3, 4]"] n
  have 3: "map_option status (map_of (game_data (run ?fresh (map (AdvanceRiddle 7) [1, 2, 3, 4]))) 7)
      = Some ''completed''"
    by auto
  from none 1 t a 2 3 show ?thesis by blast
qed

subsection \<open>C2: validating a location code\<close>

text \<open>
  Claim C2. \<^verbatim>\<open>validate_qr_code\<close> never raises, and it returns \<open>True\<close> if and only if the chat
  has a session whose position is below the length of the catalog and the submitted string
  is equal, character for character, to the \<^verbatim>\<open>qr_code\<close> of the riddle at that position. The
  method assigns to nothing: its model takes the bot and returns only the verdict.
\<close>

theorem validate_qr_code_spec:
  "validate_qr_code b c q =
     Inr (\<exists>s. map_of (game_data b) c = Some s \<and> current_riddle s < length (riddles b) \<and>
              q = qr_code (riddles b ! current_riddle s))"
  by (simp add: validate_qr_code_def get_current_riddle_eq split: option.splits)

theorem validate_qr_code_spec_witness:
  "validate_qr_code (run (init_bot load_riddles ''tok'')
       [CreateGameSession 7 ''foo'' 0, AdvanceRiddle 7 1]) 7 ''TREASURE_HUNT_LOC_1_PARK'' = Inr True \<and>
   validate_qr_code (run (init_bot load_riddles ''tok'')
       [CreateGameSession 7 ''foo'' 0, AdvanceRiddle 7 1]) 7 ''treasure_hunt_loc_1_park'' = Inr False \<and>
   validate_qr_code (run (init_bot load_riddles ''tok'')
       [CreateGameSession 7 ''foo'' 0, AdvanceRiddle 7 1]) 8 ''TREASURE_HUNT_LOC_1_PARK'' = Inr False"
proof -
  let ?b = "run (init_bot load_riddles ''tok'') [CreateGameSession 7 ''foo'' 0, AdvanceRiddle 7 1]"
  have s: "map_of (game_data ?b) 7 =
      Some \<lparr> team_name = ''foo'', current_riddle = 1, start_time = 0,
             completed_riddles = [0], hints_used = 0, status = ''active'',
             end_time = None \<rparr>"
    by code_simp
  have none: "map_of (game_data ?b) 8 = None" by code_simp
  have n: "length (riddles ?b) = 4" by code_simp
  have q: "qr_code (riddles ?b ! Suc 0) = ''TREASURE_HUNT_LOC_1_PARK''" by code_simp
  have 1: "validate_qr_code ?b 7 ''TREASURE_HUNT_LOC_1_PARK'' = Inr True"
    by (simp only: validate_qr_code_spec [of ?b 7]) (simp add: s n q)
  have 2: "validate_qr_code ?b 7 ''treasure_hunt_loc_1_park'' = Inr False"
    by (simp only: validate_qr_code_spec [of ?b 7]) (simp add: s n q)
  have 3: "validate_qr_code ?b 8 ''TREASURE_HUNT_LOC_1_PARK'' = Inr False"
    by (simp only: validate_qr_code_spec [of ?b 8]) (simp add: none)
  from 1 2 3 show ?thesis by blast
qed

subsection \<open>C3: answering\<close>

text \<open>
  Claim C3. A text message that is not awaited as a team name never changes the bot:
  whatever the text, and whatever is sent back (the answer judged right, judged wrong, no
  active game, or an exception), \<^verbatim>\<open>handle_message\<close> returns the bot instance it was given, so
  the position, the completed positions, the status, the hint count and the timestamps of
  every session are as before. The hint handlers leave the position, the completed positions,
  the status and both timestamps of every session unchanged as well. So the position of a
  session moves only in \<^verbatim>\<open>advance_riddle\<close> (claim C1).
\<close>

theorem answer_never_advances:
  "handle_message ev (Some b) c msg False now =
     (fst (handle_message ev (Some b) c msg False now), Some b, False) \<and>
   (\<forall>c'. map_option frame_of (map_of (game_data (step b (HintCommand c))) c') =
         map_option frame_of (map_of (game_data b) c')) \<and>
   (\<forall>c'. map_option frame_of (map_of (game_data (step b (ButtonCallback c d w))) c') =
         map_option frame_of (map_of (game_data b) c'))"
proof (intro conjI allI)
  show "handle_message ev (Some b) c msg False now =
     (fst (handle_message ev (Some b) c msg False now), Some b, False)"
    using handle_message_frame [of ev b c msg now] by (simp add: prod_eq_iff)
next
  fix c'
  show "map_option frame_of (map_of (game_data (step b (HintCommand c))) c') =
         map_option frame_of (map_of (game_data b) c')"
    by (simp add: step_hint_session frame_of_def split: option.splits del: step.simps)
next
  fix c'
  show "map_option frame_of (map_of (game_data (step b (ButtonCallback c d w))) c') =
         map_option frame_of (map_of (game_data b) c')"
    by (simp add: step_button_session frame_of_def split: option.splits del: step.simps)
qed

theorem answer_never_advances_witness:
  "handle_message no_files (Some (run (init_bot load_riddles ''tok'') [CreateGameSession 7 ''foo'' 0]))
      7 '' Library '' False 9 =
     (Inr [CorrectAnswer], Some (run (init_bot load_riddles ''tok'') [CreateGameSession 7 ''foo'' 0]),
      False) \<and>
   handle_message no_files (Some (run (init_bot load_riddles ''tok'') [CreateGameSession 7 ''foo'' 0]))
      7 ''castle'' False 9 =
     (Inr [WrongAnswer], Some (run (init_bot load_riddles ''tok'') [CreateGameSession 7 ''foo'' 0]),
      False)"
proof -
  let ?b = "run (init_bot load_riddles ''tok'') [CreateGameSession 7 ''foo'' 0]"
  have 1: "fst (handle_message no_files (Some ?b) 7 '' Library '' False 9) = Inr [CorrectAnswer]"
    by code_simp
  have 2: "fst (handle_message no_files (Some ?b) 7 ''castle'' False 9) = Inr [WrongAnswer]"
    by code_simp
  from answer_never_advances [of no_files ?b 7 "'' Library ''" 9] 1
  have a: "handle_message no_files (Some ?b) 7 '' Library '' False 9 =
             (Inr [CorrectAnswer], Some ?b, False)"
    by simp
  from answer_never_advances [of no_files ?b 7 "''castle''" 9] 2
  have b: "handle_message no_files (Some ?b) 7 ''castle'' False 9 =
             (Inr [WrongAnswer], Some ?b, False)"
    by simp
  from a b show ?thesis by blast
qed

subsection \<open>C4: a riddle without an answer\<close>

text \<open>
  Claim C4 says that no text is ever judged correct for a riddle without an \<^verbatim>\<open>answer\<close> key.
  The handler compares the trimmed, lower-cased text with
  \<^verbatim>\<open>current_riddle.get("answer", "").strip().lower()\<close>, which is the empty string for such a
  riddle: a text that is empty after trimming is equal to it. Evaluated on the shipped
  catalog, for a session at the third riddle (which has no answer) and the text of one
  space, the reply is the one for a correct answer. (\<open>handle_message_verdict\<close> above gives
  the general picture: for such a riddle the answer is judged wrong exactly when the trimmed
  text is not empty.)
\<close>

theorem blank_text_is_correct_without_answer:
  "answer (load_riddles ! 2) = None \<and>
   map_option current_riddle (map_of (game_data (run (init_bot load_riddles ''tok'')
       [CreateGameSession 7 ''foo'' 0, AdvanceRiddle 7 1, AdvanceRiddle 7 2])) 7) = Some 2 \<and>
   fst (handle_message no_files
          (Some (run (init_bot load_riddles ''tok'')
             [CreateGameSession 7 ''foo'' 0, AdvanceRiddle 7 1, AdvanceRiddle 7 2]))
          7 '' '' False 3) = Inr [CorrectAnswer]"
  by code_simp

subsection \<open>C5: a completed session stays completed\<close>

text \<open>
  Claim C5. Take any run of a bot that started without sessions, and a session in it whose
  status is \<^verbatim>\<open>completed\<close>. After any further operations of the engine on any chats
  (\<^verbatim>\<open>advance_riddle\<close>, the hint handlers, text messages that are not team names) the status of
  that session is still \<^verbatim>\<open>completed\<close>, \<^verbatim>\<open>get_current_riddle\<close> returns \<open>None\<close> for its chat,
  \<^verbatim>\<open>validate_qr_code\<close> returns \<open>False\<close> for every code, a text answer gets the reply that no
  game is active, and a hint request the reply that there is no riddle; the last two leave
  the bot unchanged.
\<close>

theorem completed_is_terminal:
  assumes "map_of (game_data (run (init_bot rs tok) evs)) c = Some s"
    and "status s = ''completed''"
    and "list_all engine_op ops"
  shows "(\<exists>s'. map_of (game_data (run (run (init_bot rs tok) evs) ops)) c = Some s' \<and>
              status s' = ''completed'') \<and>
         get_current_riddle (run (run (init_bot rs tok) evs) ops) c = Inr None \<and>
         validate_qr_code (run (run (init_bot rs tok) evs) ops) c q = Inr False \<and>
         handle_message ev (Some (run (run (init_bot rs tok) evs) ops)) c txt False now =
           (Inr [NoActiveGame], Some (run (run (init_bot rs tok) evs) ops), False) \<and>
         hint_command (Some (run (run (init_bot rs tok) evs) ops)) c =
           (Inr [NoRiddleForHint], Some (run (run (init_bot rs tok) evs) ops))"
proof -
  let ?b = "run (run (init_bot rs tok) evs) ops"
  from run_keeps_completed [OF assms(3,1,2)] obtain s' where
    s': "map_of (game_data ?b) c = Some s'" "status s' = ''completed''" by blast
  have ok: "bot_ok ?b"
    by (simp add: run_ok bot_ok_init)
  from completed_no_riddle [OF ok s'] have past: "length (riddles ?b) \<le> current_riddle s'" .
  have 1: "get_current_riddle ?b c = Inr None"
    using s' past by (simp add: get_current_riddle_eq)
  have 2: "validate_qr_code ?b c q = Inr False"
    using 1 by (simp add: validate_qr_code_def)
  have 3: "handle_message ev (Some ?b) c txt False now = (Inr [NoActiveGame], Some ?b, False)"
    using s' by (simp add: handle_message_def Let_def qr_branch_unreachable)
  have 4: "hint_command (Some ?b) c = (Inr [NoRiddleForHint], Some ?b)"
    using s' past by (intro hint_command_none) simp
  from s' 1 2 3 4 show ?thesis by blast
qed

theorem completed_is_terminal_witness:
  "map_option status (map_of (game_data (run (run (init_bot load_riddles ''tok'') two_teams)
       [AdvanceRiddle 1 700000000, HintCommand 1, ButtonCallback 1 ''hint'' False,
        HandleMessage no_files 1 ''library'' False 800000000])) 1) = Some ''completed'' \<and>
   get_current_riddle (run (run (init_bot load_riddles ''tok'') two_teams)
       [AdvanceRiddle 1 700000000, HintCommand 1, ButtonCallback 1 ''hint'' False,
        HandleMessage no_files 1 ''library'' False 800000000]) 1 = Inr None \<and>
   validate_qr_code (run (run (init_bot load_riddles ''tok'') two_teams)
       [AdvanceRiddle 1 700000000, HintCommand 1, ButtonCallback 1 ''hint'' False,
        HandleMessage no_files 1 ''library'' False 800000000]) 1 ''TREASURE_HUNT_LOC_4_START''
     = Inr False \<and>
   fst (handle_message no_files (Some (run (run (init_bot load_riddles ''tok'') two_teams)
       [AdvanceRiddle 1 700000000, HintCommand 1, ButtonCallback 1 ''hint'' False,
        HandleMessage no_files 1 ''library'' False 800000000])) 1 ''library'' False 900000000)
     = Inr [NoActiveGame]"
proof -
  let ?ops = "[AdvanceRiddle 1 700000000, HintCommand 1, ButtonCallback 1 ''hint'' False,
        HandleMessage no_files 1 ''library'' False 800000000]"
  have s: "map_of (game_data (run (init_bot load_riddles ''tok'') two_teams)) 1 =
      Some \<lparr> team_name = ''alpha'', current_riddle = 4, start_time = 0,
             completed_riddles = [0, 1, 2, 3], hints_used = 2,
             status = ''completed'', end_time = Some 600000000 \<rparr>"
    by code_simp
  have c: "status \<lparr> team_name = ''alpha'', current_riddle = 4, start_time = 0,
             completed_riddles = [0, 1, 2, 3], hints_used = 2,
             status = ''completed'', end_time = Some 600000000 \<rparr> = ''completed''"
    by simp
  have e: "list_all engine_op ?ops" by simp
  from completed_is_terminal [OF s c e, of "''TREASURE_HUNT_LOC_4_START''" no_files
      "''library''" 900000000]
  show ?thesis by auto
qed

subsection \<open>C6: hints\<close>

text \<open>
  Claim C6. When the chat has a current riddle (a session positioned inside the catalog),
  \<^verbatim>\<open>hint_command\<close> and the hint button reply with the hint of that riddle and add exactly one
  to \<^verbatim>\<open>hints_used\<close> of that session; a second request adds one more (there is no
  deduplication); other chats are untouched. When the chat has no session, or its session is
  positioned at or past the end of the catalog, both reply that there is no riddle and
  return the bot unchanged. In every run of a bot that started without sessions a completed
  session is such a session.
\<close>

theorem hint_spec:
  "(\<forall>s. map_of (game_data b) c = Some s \<and> current_riddle s < length (riddles b) \<longrightarrow>
      hint_command (Some b) c =
        (Inr [HintText (hint (riddles b ! current_riddle s))], Some (step b (HintCommand c))) \<and>
      button_callback (Some b) c ''hint'' w =
        (Inr [HintText (hint (riddles b ! current_riddle s))], Some (step b (HintCommand c)), w) \<and>
      map_of (game_data (step b (HintCommand c))) c = Some (s\<lparr>hints_used := hints_used s + 1\<rparr>) \<and>
      map_of (game_data (step (step b (HintCommand c)) (HintCommand c))) c =
        Some (s\<lparr>hints_used := hints_used s + 2\<rparr>)) \<and>
   (map_of (game_data b) c = None \<or>
    (\<exists>s. map_of (game_data b) c = Some s \<and> length (riddles b) \<le> current_riddle s) \<longrightarrow>
      hint_command (Some b) c = (Inr [NoRiddleForHint], Some b) \<and>
      button_callback (Some b) c ''hint'' w = (Inr [NoRiddleForHint], Some b, w)) \<and>
   (\<forall>c'. c' \<noteq> c \<longrightarrow>
      map_of (game_data (step b (HintCommand c))) c' = map_of (game_data b) c') \<and>
   (\<forall>s. map_of (game_data (run (init_bot rs tok) evs)) c = Some s \<and> status s = ''completed'' \<longrightarrow>
      hint_command (Some (run (init_bot rs tok) evs)) c =
        (Inr [NoRiddleForHint], Some (run (init_bot rs tok) evs)) \<and>
      button_callback (Some (run (init_bot rs tok) evs)) c ''hint'' w =
        (Inr [NoRiddleForHint], Some (run (init_bot rs tok) evs), w))"
proof (intro conjI allI impI)
  fix s assume a: "map_of (game_data b) c = Some s \<and> current_riddle s < length (riddles b)"
  then have st: "step b (HintCommand c) =
      b\<lparr>game_data := AList.update c (s\<lparr>hints_used := hints_used s + 1\<rparr>) (game_data b)\<rparr>"
    by (simp add: hint_command_some the_bot_def)
  show "hint_command (Some b) c =
        (Inr [HintText (hint (riddles b ! current_riddle s))], Some (step b (HintCommand c)))"
    using a by (simp only: st hint_command_some)
  show "button_callback (Some b) c ''hint'' w =
        (Inr [HintText (hint (riddles b ! current_riddle s))], Some (step b (HintCommand c)), w)"
    using a by (simp only: st button_hint_some)
  show 1: "map_of (game_data (step b (HintCommand c))) c = Some (s\<lparr>hints_used := hints_used s + 1\<rparr>)"
    using a by (simp add: step_hint_session del: step.simps)
  have r: "riddles (step b (HintCommand c)) = riddles b" by (rule step_riddles)
  show "map_of (game_data (step (step b (HintCommand c)) (HintCommand c))) c =
        Some (s\<lparr>hints_used := hints_used s + 2\<rparr>)"
    using a by (simp add: step_hint_session [of "step b (HintCommand c)"] 1 r del: step.simps)
next
  assume "map_of (game_data b) c = None \<or>
    (\<exists>s. map_of (game_data b) c = Some s \<and> length (riddles b) \<le> current_riddle s)"
  then show "hint_command (Some b) c = (Inr [NoRiddleForHint], Some b)"
    and "button_callback (Some b) c ''hint'' w = (Inr [NoRiddleForHint], Some b, w)"
    by (rule hint_command_none, rule button_hint_none)
next
  fix c' assume "c' \<noteq> c"
  then show "map_of (game_data (step b (HintCommand c))) c' = map_of (game_data b) c'"
    by (simp add: step_hint_session del: step.simps)
next
  fix s
  assume a: "map_of (game_data (run (init_bot rs tok) evs)) c = Some s \<and> status s = ''completed''"
  let ?b = "run (init_bot rs tok) evs"
  have "length (riddles ?b) \<le> current_riddle s"
    using completed_no_riddle [OF run_init_ok] a by blast
  with a have n: "map_of (game_data ?b) c = None \<or>
    (\<exists>s. map_of (game_data ?b) c = Some s \<and> length (riddles ?b) \<le> current_riddle s)"
    by blast
  show "hint_command (Some ?b) c = (Inr [NoRiddleForHint], Some ?b)"
    using n by (rule hint_command_none)
  show "button_callback (Some ?b) c ''hint'' w = (Inr [NoRiddleForHint], Some ?b, w)"
    using n by (rule button_hint_none)
qed

theorem hint_spec_witness:
  "hint_command (Some (run (init_bot load_riddles ''tok'') [CreateGameSession 7 ''foo'' 0])) 7 =
     (Inr [HintText ''Think about books!''],
      Some (step (run (init_bot load_riddles ''tok'') [CreateGameSession 7 ''foo'' 0])
             (HintCommand 7))) \<and>
   map_option hints_used (map_of (game_data
      (step (step (run (init_bot load_riddles ''tok'') [CreateGameSession 7 ''foo'' 0])
         (HintCommand 7)) (HintCommand 7))) 7) = Some 2 \<and>
   hint_command (Some (run (init_bot load_riddles ''tok'') [CreateGameSession 7 ''foo'' 0])) 8 =
     (Inr [NoRiddleForHint], Some (run (init_bot load_riddles ''tok'') [CreateGameSession 7 ''foo'' 0])) \<and>
   hint_command (Some (run (init_bot load_riddles ''tok'') two_teams)) 1 =
     (Inr [NoRiddleForHint], Some (run (init_bot load_riddles ''tok'') two_teams))"
proof -
  let ?b = "run (init_bot load_riddles ''tok'') [CreateGameSession 7 ''foo'' 0]"
  let ?s = "\<lparr> team_name = ''foo'', current_riddle = 0, start_time = 0,
             completed_riddles = [], hints_used = 0, status = ''active'',
             end_time = None \<rparr>"
  have s: "map_of (game_data ?b) 7 = Some ?s" by code_simp
  have n: "current_riddle ?s < length (riddles ?b)" by code_simp
  have h: "hint (riddles ?b ! current_riddle ?s) = ''Think about books!''" by code_simp
  have none: "map_of (game_data ?b) 8 = None" by code_simp
  have t: "map_of (game_data (run (init_bot load_riddles ''tok'') two_teams)) 1 =
      Some \<lparr> team_name = ''alpha'', current_riddle = 4, start_time = 0,
             completed_riddles = [0, 1, 2, 3], hints_used = 2,
             status = ''completed'', end_time = Some 600000000 \<rparr>"
    by code_simp
  from hint_spec [of ?b 7 False load_riddles "''tok''" two_teams] s n
  have 1: "hint_command (Some ?b) 7 =
      (Inr [HintText (hint (riddles ?b ! current_riddle ?s))], Some (step ?b (HintCommand 7)))"
    and 2: "map_of (game_data (step (step ?b (HintCommand 7)) (HintCommand 7))) 7 =
      Some (?s\<lparr>hints_used := hints_used ?s + 2\<rparr>)"
    by blast+
  from hint_spec [of ?b 8 False load_riddles "''tok''" two_teams] none
  have 3: "hint_command (Some ?b) 8 = (Inr [NoRiddleForHint], Some ?b)"
    by blast
  from hint_spec [of ?b 1 False load_riddles "''tok''" two_teams] t
  have 4: "hint_command (Some (run (init_bot load_riddles ''tok'') two_teams)) 1 =
     (Inr [NoRiddleForHint], Some (run (init_bot load_riddles ''tok'') two_teams))"
    by simp
  from 1 2 3 4 show ?thesis by (simp only: h) simp
qed

subsection \<open>C7: duplicates in the catalog\<close>




subsection \<open>C8: the leaderboard\<close>

text \<open>
  Claim C8. In every run of a bot that started without sessions \<^verbatim>\<open>get_leaderboard\<close> returns
  a list (it does not raise) with exactly one entry for each chat whose session is
  completed and none for any other; the entry carries the team name and the hint count of
  that session and the duration \<^verbatim>\<open>end_time - start_time\<close>. The list is sorted by duration and,
  among equal durations, by hint count: of two entries the earlier one has the smaller
  duration, or the same duration and at most as many hints. Entries that agree on both keys
  stand in the order in which their chats were first registered in \<^verbatim>\<open>game_data\<close>.
\<close>

theorem leaderboard_spec:
  "\<exists>lb. get_leaderboard (run (init_bot rs tok) evs) = Inr lb \<and>
     distinct (map entry_chat_id lb) \<and>
     set (map entry_chat_id lb) =
       {c. \<exists>s. map_of (game_data (run (init_bot rs tok) evs)) c = Some s \<and>
                status s = ''completed''} \<and>
     (\<forall>e \<in> set lb.
        \<exists>s. map_of (game_data (run (init_bot rs tok) evs)) (entry_chat_id e) = Some s \<and>
          status s = ''completed'' \<and>
          entry_team_name e = team_name s \<and>
          end_time s = Some (start_time s + duration e) \<and>
          entry_hints_used e = hints_used s) \<and>
     (\<forall>i j. i < j \<and> j < length lb \<longrightarrow>
        duration (lb ! i) < duration (lb ! j) \<or>
        (duration (lb ! i) = duration (lb ! j) \<and>
         entry_hints_used (lb ! i) \<le> entry_hints_used (lb ! j))) \<and>
     (\<forall>k. map entry_chat_id (filter (\<lambda>e. sort_by e = k) lb) =
          filter (\<lambda>c. \<exists>e \<in> set lb. entry_chat_id e = c \<and> sort_by e = k)
            (map fst (game_data (run (init_bot rs tok) evs))))"
  by (rule leaderboard_ok [OF run_init_ok])

theorem leaderboard_spec_witness:
  "get_leaderboard (run (init_bot load_riddles ''tok'') two_teams) =
     Inr [\<lparr> entry_team_name = ''beta'', duration = 480000000, entry_hints_used = 5,
             entry_chat_id = 2 \<rparr>,
          \<lparr> entry_team_name = ''alpha'', duration = 600000000, entry_hints_used = 2,
             entry_chat_id = 1 \<rparr>] \<and>
   map_option status (map_of (game_data (run (init_bot load_riddles ''tok'') two_teams)) 2)
     = Some ''completed'' \<and>
   map_option end_time (map_of (game_data (run (init_bot load_riddles ''tok'') two_teams)) 2)
     = Some (Some 480000000)"
proof -
  let ?b = "run (init_bot load_riddles ''tok'') two_teams"
  let ?beta = "\<lparr> entry_team_name = ''beta'', duration = 480000000, entry_hints_used = 5,
             entry_chat_id = 2 \<rparr>"
  let ?alpha = "\<lparr> entry_team_name = ''alpha'', duration = 600000000, entry_hints_used = 2,
             entry_chat_id = 1 \<rparr>"
  have lb: "get_leaderboard ?b = Inr [?beta, ?alpha]" by code_simp
  from leaderboard_spec [of load_riddles "''tok''" two_teams] lb
  have "\<forall>e \<in> set [?beta, ?alpha].
        \<exists>s. map_of (game_data ?b) (entry_chat_id e) = Some s \<and>
          status s = ''completed'' \<and>
          entry_team_name e = team_name s \<and>
          end_time s = Some (start_time s + duration e) \<and>
          entry_hints_used e = hints_used s"
    by auto
  then obtain s where s: "map_of (game_data ?b) 2 = Some s" "status s = ''completed''"
      "end_time s = Some (start_time s + 480000000)"
    by auto
  have "map_option start_time (map_of (game_data ?b) 2) = Some 0" by code_simp
  with s have "start_time s = 0" by simp
  with s lb show ?thesis by simp
qed

subsection \<open>C9: advancing a completed session\<close>

text \<open>
  Claim C9. For a session positioned at or past the end of the catalog \<^verbatim>\<open>advance_riddle\<close>
  still returns \<open>True\<close>: it appends the out-of-range position, adds one to the position, and
  sets \<^verbatim>\<open>end_time\<close> to the current time. In every run of a bot that started without sessions
  a completed session is so positioned, and after the call the leaderboard shows it with the
  duration from its start to the time of this last call.
\<close>

theorem advance_after_completion:
  "(\<forall>s. map_of (game_data b) c = Some s \<and> length (riddles b) \<le> current_riddle s \<longrightarrow>
      fst (advance_riddle b c now) = True \<and>
      map_of (game_data (snd (advance_riddle b c now))) c =
        Some (s\<lparr>completed_riddles := completed_riddles s @ [current_riddle s],
                current_riddle := current_riddle s + 1,
                status := ''completed'', end_time := Some now\<rparr>)) \<and>
   (\<forall>s. map_of (game_data (run (init_bot rs tok) evs)) c' = Some s \<and>
        status s = ''completed'' \<longrightarrow>
      length rs \<le> current_riddle s \<and>
      (\<exists>lb. get_leaderboard (snd (advance_riddle (run (init_bot rs tok) evs) c' now)) = Inr lb \<and>
         (\<exists>e \<in> set lb. entry_chat_id e = c' \<and> duration e = now - start_time s)))"
proof (intro conjI allI impI)
  fix s assume "map_of (game_data b) c = Some s \<and> length (riddles b) \<le> current_riddle s"
  then show "fst (advance_riddle b c now) = True"
    and "map_of (game_data (snd (advance_riddle b c now))) c =
        Some (s\<lparr>completed_riddles := completed_riddles s @ [current_riddle s],
                current_riddle := current_riddle s + 1,
                status := ''completed'', end_time := Some now\<rparr>)"
    by (simp_all add: advance_riddle_eq update_conv')
next
  fix s
  assume a: "map_of (game_data (run (init_bot rs tok) evs)) c' = Some s \<and>
        status s = ''completed''"
  let ?b = "run (init_bot rs tok) evs"
  let ?b' = "snd (advance_riddle ?b c' now)"
  have r: "riddles ?b = rs" by (simp add: run_riddles init_bot_def)
  from completed_no_riddle [OF run_init_ok] a r
  show past: "length rs \<le> current_riddle s" by metis
  have s': "map_of (game_data ?b') c' =
        Some (s\<lparr>completed_riddles := completed_riddles s @ [current_riddle s],
                current_riddle := current_riddle s + 1,
                status := ''completed'', end_time := Some now\<rparr>)"
    using a past r by (simp add: advance_riddle_eq update_conv')
  have "bot_ok ?b'" by (rule advance_riddle_ok [OF run_init_ok])
  from leaderboard_ok [OF this] obtain lb where
    lb: "get_leaderboard ?b' = Inr lb"
    and chats: "set (map entry_chat_id lb) =
       {c. \<exists>s. map_of (game_data ?b') c = Some s \<and> status s = ''completed''}"
    and ent: "\<forall>e \<in> set lb.
        \<exists>s. map_of (game_data ?b') (entry_chat_id e) = Some s \<and> status s = ''completed'' \<and>
          entry_team_name e = team_name s \<and>
          end_time s = Some (start_time s + duration e) \<and>
          entry_hints_used e = hints_used s"
    by blast
  from s' chats have "c' \<in> set (map entry_chat_id lb)" by simp
  then obtain e where e: "e \<in> set lb" "entry_chat_id e = c'" by auto
  with ent s' have "Some now = Some (start_time s + duration e)" by fastforce
  then have "duration e = now - start_time s" by simp
  with lb e show "\<exists>lb. get_leaderboard ?b' = Inr lb \<and>
         (\<exists>e \<in> set lb. entry_chat_id e = c' \<and> duration e = now - start_time s)"
    by blast
qed

theorem advance_after_completion_witness:
  "fst (advance_riddle (run (init_bot load_riddles ''tok'') two_teams) 1 900000000) = True \<and>
   map_of (game_data (snd (advance_riddle (run (init_bot load_riddles ''tok'') two_teams)
                              1 900000000))) 1 =
     Some \<lparr> team_name = ''alpha'', current_riddle = 5, start_time = 0,
            completed_riddles = [0, 1, 2, 3, 4], hints_used = 2,
            status = ''completed'', end_time = Some 900000000 \<rparr> \<and>
   get_leaderboard (snd (advance_riddle (run (init_bot load_riddles ''tok'') two_teams)
                              1 900000000)) =
     Inr [\<lparr> entry_team_name = ''beta'', duration = 480000000, entry_hints_used = 5,
             entry_chat_id = 2 \<rparr>,
          \<lparr> entry_team_name = ''alpha'', duration = 900000000, entry_hints_used = 2,
             entry_chat_id = 1 \<rparr>]"
proof -
  let ?b = "run (init_bot load_riddles ''tok'') two_teams"
  let ?s = "\<lparr> team_name = ''alpha'', current_riddle = 4, start_time = 0,
             completed_riddles = [0, 1, 2, 3], hints_used = 2,
             status = ''completed'', end_time = Some 600000000 \<rparr>"
  have s: "map_of (game_data ?b) 1 = Some ?s" by code_simp
  have n: "length (riddles ?b) \<le> current_riddle ?s" by code_simp
  have lb: "get_leaderboard (snd (advance_riddle ?b 1 900000000)) =
     Inr [\<lparr> entry_team_name = ''beta'', duration = 480000000, entry_hints_used = 5,
             entry_chat_id = 2 \<rparr>,
          \<lparr> entry_team_name = ''alpha'', duration = 900000000, entry_hints_used = 2,
             entry_chat_id = 1 \<rparr>]"
    by code_simp
  from advance_after_completion [of ?b 1 900000000 load_riddles "''tok''" two_teams 1] s n
  have "fst (advance_riddle ?b 1 900000000) = True"
    and "map_of (game_data (snd (advance_riddle ?b 1 900000000))) 1 =
        Some (?s\<lparr>completed_riddles := completed_riddles ?s @ [current_riddle ?s],
                current_riddle := current_riddle ?s + 1,
                status := ''completed'', end_time := Some 900000000\<rparr>)"
    by blast+
  with lb show ?thesis by simp
qed

subsection \<open>C10: positions and completed positions\<close>

text \<open>
  Claim C10. In every run of a bot that started without sessions (sessions are created,
  advanced, given hints and sent messages in any order), every session has as many completed
  positions as its current position says, and they are \<open>0, 1, ...\<close> up to the current
  position, in order.
\<close>

theorem sessions_count_positions:
  "\<forall>c s. map_of (game_data (run (init_bot rs tok) evs)) c = Some s \<longrightarrow>
      current_riddle s = length (completed_riddles s) \<and>
      completed_riddles s = [0..<current_riddle s]"
proof (intro allI impI)
  fix c s assume "map_of (game_data (run (init_bot rs tok) evs)) c = Some s"
  then have "session_ok (length (riddles (run (init_bot rs tok) evs))) s"
    by (rule bot_ok_lookup [OF run_init_ok])
  then show "current_riddle s = length (completed_riddles s) \<and>
      completed_riddles s = [0..<current_riddle s]"
    by (simp add: session_ok_def)
qed

theorem sessions_count_positions_witness:
  "map_of (game_data (run (init_bot load_riddles ''tok'') two_teams)) 2 =
     Some \<lparr> team_name = ''beta'', current_riddle = 4, start_time = 0,
            completed_riddles = [0, 1, 2, 3], hints_used = 5,
            status = ''completed'', end_time = Some 480000000 \<rparr> \<and>
   current_riddle \<lparr> team_name = ''beta'', current_riddle = 4, start_time = 0,
            completed_riddles = [0, 1, 2, 3], hints_used = 5,
            status = ''completed'', end_time = Some 480000000 \<rparr> =
     length (completed_riddles \<lparr> team_name = ''beta'', current_riddle = 4, start_time = 0,
            completed_riddles = [0, 1, 2, 3], hints_used = 5,
            status = ''completed'', end_time = Some 480000000 \<rparr>)"
proof -
  let ?s = "\<lparr> team_name = ''beta'', current_riddle = 4, start_time = 0,
            completed_riddles = [0, 1, 2, 3], hints_used = 5,
            status = ''completed'', end_time = Some 480000000 \<rparr>"
  have s: "map_of (game_data (run (init_bot load_riddles ''tok'') two_teams)) 2 = Some ?s"
    by code_simp
  from sessions_count_positions [of load_riddles "''tok''" two_teams] s
  have "current_riddle ?s = length (completed_riddles ?s)" by blast
  with s show ?thesis by blast
qed

end
